theory Spec2Isabelle
  imports Complex_Main
begin

section \<open>meshroom/ui/graph.py: the status monitor and the UI graph\<close>

text \<open>
  The module holds two Qt objects. \<open>ChunksMonitor\<close> polls the status files of the
  computation units (node chunks) and keeps, per chunk, the last modification time it saw.
  \<open>UIGraph\<close> owns one monitor, an undo stack, the current graph, a compute thread and the
  list of chunks in depth-first finish order.

  Both live on one thread and call each other through signals, so the embedding is one
  state record that every method takes and returns. What lies outside the module is an
  environment record: the operating system's \<open>stat\<close>, the chunk objects' status files and
  their refresh from the status file, the graph's traversal and the execution routine.
  A method that can raise returns the exception beside the state at the moment of the
  raise (Python keeps every mutation made before it).
\<close>

subsection \<open>Data\<close>

type_synonym path = string
type_synonym chunk = nat \<comment> \<open>the identity of a NodeChunk object\<close>
type_synonym node = nat \<comment> \<open>the identity of a Node object\<close>

text \<open>
  Modelled from the spec: the enumeration \<open>meshroom.core.node.Status\<close> is not part of
  the module; the members are those of the spec's data model. The module itself names only
  \<open>RUNNING\<close> and \<open>SUBMITTED\<close>.
\<close>

datatype Status = NONE | SUBMITTED | RUNNING | ERROR | SUCCESS | STOPPED

datatype exn = OSError | AssertionError | AttributeError | IndexError

text \<open>
  An attribute object. \<open>isinstance(a, ListAttribute)\<close> is the test for the second
  constructor; the elements of a list attribute are addressed by position.
\<close>

datatype Attribute =
    Attribute string
  | ListAttribute string
  | ListElement Attribute nat

datatype pyValue = PyNone | PyList "string list" | PyDict "(string \<times> string) list"

datatype QJsonValue =
    JsonNull
  | JsonBool bool
  | JsonDouble real
  | JsonString string
  | JsonArray "string list"
  | JsonObject "(string \<times> string) list"
  | JsonUndefined

text \<open>The two commands that \<open>addEdge\<close> constructs.\<close>

datatype command =
    AddEdgeCommand Attribute Attribute
  | ListAttributeAppendCommand Attribute pyValue

datatype entry = Single command | Macro string "command list"

text \<open>
  Modelled from the spec: \<open>commands.UndoStack\<close> is not part of the module. The spec's
  UndoHistory is an ordered sequence of commands and macros with a cursor: \<open>undoList\<close>
  holds the entries before the cursor (oldest first), \<open>redoList\<close> the redo-able tail
  (next to redo first). Macros nest; only the outermost pair makes an entry, so an open
  macro is its label, its nesting depth and the commands recorded so far.
\<close>

record UndoStack =
  undoList :: "entry list"
  redoList :: "entry list"
  openMacro :: "(string \<times> nat \<times> command list) option"

text \<open>
  Modelled from the spec: \<open>meshroom.core.graph.Graph\<close> is not part of the module. Of
  its content the model keeps what the two commands edit: the number of elements of each
  list attribute and the edges as (source, destination) pairs.
\<close>

record Graph =
  name :: string
  listSize :: "Attribute \<Rightarrow> nat"
  edges :: "(Attribute \<times> Attribute) list"

text \<open>
  The compute thread. \<open>Thread()\<close> of the constructor was never started; a started thread
  runs \<open>_execute(nodes)\<close> and is alive until that returns. The position says which
  statement of \<open>_execute\<close> comes next.
\<close>

datatype position = AtStartEmit | AtExecuteGraph | AtFinalEmit

datatype Thread = NeverStarted | Alive position "node list option" | Terminated

text \<open>Everything observable that a method does: signals emitted and collaborator calls.\<close>

datatype event =
    OsPathExists path
  | OsPathGetmtime path
  | ChunkStatusChanged "(chunk \<times> Status) option"
      \<comment> \<open>\<open>ChunksMonitor.chunkStatusChanged\<close>; \<open>None\<close> is the emission \<open>(None, -1)\<close>\<close>
  | ComputeStatusChanged
  | GraphChanged
  | UpdateStatusFromCache chunk
  | Connect chunk
  | Disconnect chunk
  | LogDebug node Status
  | ThreadStart "node list option"
  | ExecuteGraph "Graph option" "node list option"
  | LogError
  | GraphStopExecution Graph
  | ThreadJoin
  | GraphDeleteLater Graph
  | GraphConnectUpdated Graph
  | GraphUpdate Graph

text \<open>
  The state: the world as far as the module sees it (the clock of observations, the
  chunks' statuses, the record of events), the monitor's dictionary, and the fields of
  \<open>UIGraph\<close>. The dictionary is a list of pairs with distinct keys.
\<close>

record state =
  clock :: nat \<comment> \<open>number of observations of the outside world made so far\<close>
  status :: "chunk \<Rightarrow> Status" \<comment> \<open>\<open>chunk.status.status\<close>\<close>
  events :: "event list"
  lastModificationRecords :: "(chunk \<times> real) list"
  undoStack :: UndoStack
  graph :: "Graph option"
  modificationCount :: int
  computeThread :: Thread
  running :: bool
  submitted :: bool
  sortedDFSChunks :: "chunk list"

text \<open>
  The environment. Status files are written, replaced and deleted by other processes, so
  what \<open>os.stat\<close> returns for a path depends on when it is asked: \<open>os_stat E n f\<close> is the
  answer to the observation number \<open>n\<close>, the modification time or \<open>None\<close> when the call
  fails. \<open>refresh\<close> is the outcome of the chunk's \<open>updateStatusFromCache\<close>: the status
  it parsed, and whether the chunk then emitted its own \<open>statusChanged\<close>.
\<close>

record env =
  os_stat :: "nat \<Rightarrow> path \<Rightarrow> real option"
  statusFile :: "chunk \<Rightarrow> path"
  refresh :: "nat \<Rightarrow> chunk \<Rightarrow> Status \<times> bool"
  chunkNode :: "chunk \<Rightarrow> node"
  dfsOnFinish :: "Graph \<Rightarrow> node list"
  getChunks :: "Graph \<Rightarrow> node list \<Rightarrow> chunk list"
  executeGraphRaises :: "Graph option \<Rightarrow> node list option \<Rightarrow> bool"
  accepts :: "Graph \<Rightarrow> command \<Rightarrow> bool"
  fullName :: "Attribute \<Rightarrow> string"

subsection \<open>Python dictionaries and the operating system\<close>

text \<open>
  A dictionary keeps its keys in insertion order; assigning to a present key keeps the
  key's place, assigning to an absent one appends it.
\<close>

fun dict_set :: "('k \<times> 'v) list \<Rightarrow> 'k \<Rightarrow> 'v \<Rightarrow> ('k \<times> 'v) list" where
  "dict_set [] k v = [(k, v)]"
| "dict_set ((k', v') # d) k v = (if k' = k then (k, v) # d else (k', v') # dict_set d k v)"

definition dict_keys :: "('k \<times> 'v) list \<Rightarrow> 'k list" where
  "dict_keys d = map fst d"

definition emit :: "event \<Rightarrow> state \<Rightarrow> state" where
  "emit e s = s\<lparr>events := events s @ [e]\<rparr>"

text \<open>One observation of the outside world: it is recorded, and the clock moves on.\<close>

definition observe :: "event \<Rightarrow> state \<Rightarrow> state" where
  "observe e s = s\<lparr>clock := Suc (clock s), events := events s @ [e]\<rparr>"

text \<open>
  \<open>os.path.exists\<close> is \<open>os.stat\<close> with every \<open>OSError\<close> turned into \<open>False\<close>;
  \<open>os.path.getmtime\<close> is \<open>os.stat(f).st_mtime\<close> and lets the error through.
\<close>

definition os_path_exists :: "env \<Rightarrow> path \<Rightarrow> state \<Rightarrow> bool \<times> state" where
  "os_path_exists E f s = (os_stat E (clock s) f \<noteq> None, observe (OsPathExists f) s)"

definition os_path_getmtime :: "env \<Rightarrow> path \<Rightarrow> state \<Rightarrow> (exn + real) \<times> state" where
  "os_path_getmtime E f s =
     (case os_stat E (clock s) f of None \<Rightarrow> Inl OSError | Some t \<Rightarrow> Inr t,
      observe (OsPathGetmtime f) s)"

subsection \<open>ChunksMonitor\<close>

text \<open>
  \<open>return os.path.getmtime(f) if os.path.exists(f) else -1\<close>. The modification time is
  a finite float and the sentinel the integer -1; Python compares the two by value, so both
  are read as real numbers. A file whose modification time is -1 second is not told from an
  absent one.
\<close>

definition getFileLastModTime :: "env \<Rightarrow> path \<Rightarrow> state \<Rightarrow> (exn + real) \<times> state" where
  "getFileLastModTime E f s =
     (case os_path_exists E f s of
        (True, s1) \<Rightarrow> os_path_getmtime E f s1
      | (False, s1) \<Rightarrow> (Inr (- 1), s1))"

text \<open>
  \<open>UIGraph.onChunkStatusChanged\<close>, the slot that the constructor of \<open>UIGraph\<close> connects
  to the monitor's \<open>chunkStatusChanged\<close>. It ignores its arguments.
\<close>

definition UIGraph_onChunkStatusChanged :: "state \<Rightarrow> state" where
  "UIGraph_onChunkStatusChanged s =
     (let running' = list_ex (\<lambda>ch. status s ch = RUNNING) (sortedDFSChunks s);
          submitted' = list_ex (\<lambda>ch. status s ch = SUBMITTED) (sortedDFSChunks s)
      in if running s \<noteq> running' \<or> submitted s \<noteq> submitted'
         then emit ComputeStatusChanged (s\<lparr>running := running', submitted := submitted'\<rparr>)
         else s)"

definition emit_chunkStatusChanged :: "(chunk \<times> Status) option \<Rightarrow> state \<Rightarrow> state" where
  "emit_chunkStatusChanged a s = UIGraph_onChunkStatusChanged (emit (ChunkStatusChanged a) s)"

text \<open>
  \<open>ChunksMonitor.onChunkStatusChanged\<close>. The argument is \<open>self.sender()\<close>, which is
  \<open>None\<close> when the method is not called through a signal.
\<close>

definition onChunkStatusChanged :: "env \<Rightarrow> chunk option \<Rightarrow> state \<Rightarrow> exn option \<times> state" where
  "onChunkStatusChanged E sender s =
     (case sender of
        None \<Rightarrow> (Some AssertionError, s)
      | Some chunk \<Rightarrow>
          if chunk \<notin> set (dict_keys (lastModificationRecords s)) then (Some AssertionError, s)
          else (case getFileLastModTime E (statusFile E chunk) s of
                  (Inl e, s1) \<Rightarrow> (Some e, s1)
                | (Inr m, s1) \<Rightarrow>
                    (None, emit_chunkStatusChanged (Some (chunk, status s1 chunk))
                       (s1\<lparr>lastModificationRecords :=
                             dict_set (lastModificationRecords s1) chunk m\<rparr>))))"

text \<open>
  Modelled from the spec: \<open>chunk.updateStatusFromCache()\<close>, a method of the chunk, is not
  part of the module. It re-parses the status record into the chunk's in-memory status; the
  status it parses, and whether the chunk then reports a change of its own by emitting
  \<open>statusChanged\<close>, is the environment's \<open>refresh\<close>. When the chunk emits, the slot
  connected by \<open>setChunks\<close> runs before the call returns. PySide2 prints an exception
  raised by a slot and returns to the emitter, so the slot's exception is dropped here.
  The refresh itself is taken to return normally, like every call of a collaborator that the
  module does not guard.
\<close>

definition updateStatusFromCache :: "env \<Rightarrow> chunk \<Rightarrow> state \<Rightarrow> state" where
  "updateStatusFromCache E chunk s =
     (case refresh E (clock s) chunk of
        (st, emits) \<Rightarrow>
          let s1 = observe (UpdateStatusFromCache chunk) (s\<lparr>status := (status s)(chunk := st)\<rparr>)
          in if emits then snd (onChunkStatusChanged E (Some chunk) s1) else s1)"

text \<open>
  \<open>checkFileTimes\<close>: the loop over the items of the record dictionary, and its body for
  one item. Inside the loop only values of present keys are assigned, so the items met are
  those of the start. An exception leaves the loop at once.
\<close>

definition checkFileTimes_body :: "env \<Rightarrow> chunk \<Rightarrow> real \<Rightarrow> state \<Rightarrow> exn option \<times> state" where
  "checkFileTimes_body E chunk t s =
     (case getFileLastModTime E (statusFile E chunk) s of
        (Inl e, s1) \<Rightarrow> (Some e, s1)
      | (Inr lastMod, s1) \<Rightarrow>
          if lastMod \<noteq> t then
            (let s2 = s1\<lparr>lastModificationRecords :=
                          dict_set (lastModificationRecords s1) chunk lastMod\<rparr>;
                 s3 = updateStatusFromCache E chunk s2
             in (None, emit (LogDebug (chunkNode E chunk) (status s3 chunk)) s3))
          else (None, s1))"

fun checkFileTimes_loop :: "env \<Rightarrow> (chunk \<times> real) list \<Rightarrow> state \<Rightarrow> exn option \<times> state" where
  "checkFileTimes_loop E [] s = (None, s)"
| "checkFileTimes_loop E ((chunk, t) # items) s =
     (case checkFileTimes_body E chunk t s of
        (Some e, s1) \<Rightarrow> (Some e, s1)
      | (None, s1) \<Rightarrow> checkFileTimes_loop E items s1)"

definition checkFileTimes :: "env \<Rightarrow> state \<Rightarrow> exn option \<times> state" where
  "checkFileTimes E s = checkFileTimes_loop E (lastModificationRecords s) s"

definition timerEvent :: "env \<Rightarrow> state \<Rightarrow> exn option \<times> state" where
  "timerEvent E s = checkFileTimes E s"

text \<open>
  \<open>clear\<close> disconnects the slot from every recorded chunk and empties the dictionary;
  \<open>setChunks\<close> then records and connects the chunks one by one and announces the new
  list with \<open>chunkStatusChanged.emit(None, -1)\<close>.
\<close>

definition ChunksMonitor_clear :: "state \<Rightarrow> state" where
  "ChunksMonitor_clear s =
     (fold (\<lambda>ch. emit (Disconnect ch)) (dict_keys (lastModificationRecords s)) s)
       \<lparr>lastModificationRecords := []\<rparr>"

fun setChunks_loop :: "env \<Rightarrow> chunk list \<Rightarrow> state \<Rightarrow> exn option \<times> state" where
  "setChunks_loop E [] s = (None, s)"
| "setChunks_loop E (chunk # chunks) s =
     (case getFileLastModTime E (statusFile E chunk) s of
        (Inl e, s1) \<Rightarrow> (Some e, s1)
      | (Inr m, s1) \<Rightarrow>
          setChunks_loop E chunks
            (emit (Connect chunk)
               (s1\<lparr>lastModificationRecords := dict_set (lastModificationRecords s1) chunk m\<rparr>)))"

definition setChunks :: "env \<Rightarrow> chunk list \<Rightarrow> state \<Rightarrow> exn option \<times> state" where
  "setChunks E chunks s =
     (case setChunks_loop E chunks (ChunksMonitor_clear s) of
        (Some e, s1) \<Rightarrow> (Some e, s1)
      | (None, s1) \<Rightarrow> (None, emit_chunkStatusChanged None s1))"

subsection \<open>The undo stack and the commands\<close>

text \<open>
  Modelled from the spec: the module \<open>meshroom.ui.commands\<close> is not part of the source.
  A command is an apply/undo pair on the graph. Appending to a list attribute adds one
  element at the end; adding an edge connects a source to a destination.
\<close>

fun redoImpl :: "command \<Rightarrow> Graph \<Rightarrow> Graph" where
  "redoImpl (AddEdgeCommand src dst) g = g\<lparr>edges := edges g @ [(src, dst)]\<rparr>"
| "redoImpl (ListAttributeAppendCommand a v) g =
     g\<lparr>listSize := (listSize g)(a := Suc (listSize g a))\<rparr>"

fun undoImpl :: "command \<Rightarrow> Graph \<Rightarrow> Graph" where
  "undoImpl (AddEdgeCommand src dst) g = g\<lparr>edges := remove1 (src, dst) (edges g)\<rparr>"
| "undoImpl (ListAttributeAppendCommand a v) g =
     g\<lparr>listSize := (listSize g)(a := listSize g a - 1)\<rparr>"

text \<open>
  Modelled from the spec: a macro's commands apply in declaration order and undo in exact
  reverse order, as one entry of the history.
\<close>

fun redo_entry :: "entry \<Rightarrow> Graph \<Rightarrow> Graph" where
  "redo_entry (Single c) g = redoImpl c g"
| "redo_entry (Macro label cs) g = fold redoImpl cs g"

fun undo_entry :: "entry \<Rightarrow> Graph \<Rightarrow> Graph" where
  "undo_entry (Single c) g = undoImpl c g"
| "undo_entry (Macro label cs) g = fold undoImpl (rev cs) g"

text \<open>Modelled from the spec: \<open>UndoStack.clear\<close> empties the history.\<close>

definition UndoStack_clear :: "UndoStack \<Rightarrow> UndoStack" where
  "UndoStack_clear u = \<lparr>undoList = [], redoList = [], openMacro = None\<rparr>"

text \<open>
  Modelled from the spec: \<open>beginMacro\<close> and \<open>endMacro\<close> nest, and only the outermost pair
  opens and closes one undoable entry. Like a push, opening a macro discards the redo-able
  tail. An \<open>endMacro\<close> with no macro open changes nothing.
\<close>

definition beginMacro :: "string \<Rightarrow> UndoStack \<Rightarrow> UndoStack" where
  "beginMacro label u =
     (case openMacro u of
        None \<Rightarrow> u\<lparr>redoList := [], openMacro := Some (label, 1, [])\<rparr>
      | Some (l, d, cs) \<Rightarrow> u\<lparr>openMacro := Some (l, Suc d, cs)\<rparr>)"

definition endMacro :: "UndoStack \<Rightarrow> UndoStack" where
  "endMacro u =
     (case openMacro u of
        None \<Rightarrow> u
      | Some (l, d, cs) \<Rightarrow>
          if d \<le> 1 then u\<lparr>undoList := undoList u @ [Macro l cs], openMacro := None\<rparr>
          else u\<lparr>openMacro := Some (l, d - 1, cs)\<rparr>)"

definition record_command :: "command \<Rightarrow> UndoStack \<Rightarrow> UndoStack" where
  "record_command c u =
     (case openMacro u of
        None \<Rightarrow> u\<lparr>undoList := undoList u @ [Single c], redoList := []\<rparr>
      | Some (l, d, cs) \<Rightarrow> u\<lparr>openMacro := Some (l, d, cs @ [c])\<rparr>)"

text \<open>
  Modelled from the spec: \<open>push(command)\<close> attempts the edit; a rejected command is not
  recorded and nothing is mutated; an accepted one is applied once and appended to the
  history. Whether the graph accepts a command is the environment's \<open>accepts\<close>. A command
  is built on \<open>self._graph\<close>; with no graph installed it is rejected.
\<close>

definition push :: "env \<Rightarrow> command \<Rightarrow> state \<Rightarrow> bool \<times> state" where
  "push E c s =
     (case graph s of
        None \<Rightarrow> (False, s)
      | Some g \<Rightarrow>
          if accepts E g c
          then (True, s\<lparr>graph := Some (redoImpl c g),
                        undoStack := record_command c (undoStack s)\<rparr>)
          else (False, s))"

text \<open>
  Modelled from the spec: \<open>undo\<close> and \<open>redo\<close> of the history move the cursor by one entry
  and apply the entry's undo or redo to the graph. They do nothing while a macro is open,
  at the ends of the history, or with no graph installed.
\<close>

definition undo :: "state \<Rightarrow> state" where
  "undo s =
     (let u = undoStack s in
      case graph s of
        None \<Rightarrow> s
      | Some g \<Rightarrow>
          if openMacro u \<noteq> None \<or> undoList u = [] then s
          else s\<lparr>graph := Some (undo_entry (last (undoList u)) g),
                 undoStack := u\<lparr>undoList := butlast (undoList u),
                                 redoList := last (undoList u) # redoList u\<rparr>\<rparr>)"

definition redo :: "state \<Rightarrow> state" where
  "redo s =
     (let u = undoStack s in
      case graph s of
        None \<Rightarrow> s
      | Some g \<Rightarrow>
          (case redoList u of
             [] \<Rightarrow> s
           | e # es \<Rightarrow>
               if openMacro u \<noteq> None then s
               else s\<lparr>graph := Some (redo_entry e g),
                      undoStack := u\<lparr>undoList := undoList u @ [e], redoList := es\<rparr>\<rparr>))"

subsection \<open>UIGraph: computation state and the compute thread\<close>

definition isComputingLocally :: "state \<Rightarrow> bool" where
  "isComputingLocally s = (case computeThread s of Alive p nodes \<Rightarrow> True | _ \<Rightarrow> False)"

definition isComputingExternally :: "state \<Rightarrow> bool" where
  "isComputingExternally s = ((running s \<or> submitted s) \<and> \<not> isComputingLocally s)"

definition isComputing :: "state \<Rightarrow> bool" where
  "isComputing s = (isComputingLocally s \<or> isComputingExternally s)"

text \<open>
  \<open>execute\<close>: \<open>nodes = [node] if node else None\<close>, then the thread is created and
  started. The statements of \<open>_execute\<close> run on that thread, one per \<open>worker_step\<close>:
  the first emission, \<open>executeGraph\<close> inside its \<open>try\<close> (an exception is logged),
  the emission of the \<open>finally\<close> clause, after which the thread is no longer alive.
\<close>

definition execute :: "node option \<Rightarrow> state \<Rightarrow> state" where
  "execute node s =
     (if isComputing s then s
      else let nodes = (case node of Some n \<Rightarrow> Some [n] | None \<Rightarrow> None)
           in emit (ThreadStart nodes) (s\<lparr>computeThread := Alive AtStartEmit nodes\<rparr>))"

definition worker_step :: "env \<Rightarrow> state \<Rightarrow> state" where
  "worker_step E s =
     (case computeThread s of
        Alive AtStartEmit nodes \<Rightarrow>
          emit ComputeStatusChanged (s\<lparr>computeThread := Alive AtExecuteGraph nodes\<rparr>)
      | Alive AtExecuteGraph nodes \<Rightarrow>
          (let s1 = emit (ExecuteGraph (graph s) nodes) (s\<lparr>computeThread := Alive AtFinalEmit nodes\<rparr>)
           in if executeGraphRaises E (graph s) nodes then emit LogError s1 else s1)
      | Alive AtFinalEmit nodes \<Rightarrow> emit ComputeStatusChanged (s\<lparr>computeThread := Terminated\<rparr>)
      | _ \<Rightarrow> s)"

text \<open>
  \<open>Thread.join\<close> returns when the thread has run to its end. The execution routine is
  taken to return or raise once cancellation is requested.
\<close>

fun remaining :: "Thread \<Rightarrow> nat" where
  "remaining (Alive AtStartEmit nodes) = 3"
| "remaining (Alive AtExecuteGraph nodes) = 2"
| "remaining (Alive AtFinalEmit nodes) = 1"
| "remaining t = 0"

definition Thread_join :: "env \<Rightarrow> state \<Rightarrow> state" where
  "Thread_join E s = emit ThreadJoin ((worker_step E ^^ remaining (computeThread s)) s)"

definition stopExecution :: "env \<Rightarrow> state \<Rightarrow> exn option \<times> state" where
  "stopExecution E s =
     (if \<not> isComputingLocally s then (None, s)
      else case graph s of
             None \<Rightarrow> (Some AttributeError, s)
           | Some g \<Rightarrow>
               (None, emit ComputeStatusChanged (Thread_join E (emit (GraphStopExecution g) s))))"

subsection \<open>UIGraph: the graph and its chunks\<close>

definition updateChunks :: "env \<Rightarrow> state \<Rightarrow> exn option \<times> state" where
  "updateChunks E s =
     (case graph s of
        None \<Rightarrow> (Some AttributeError, s)
      | Some g \<Rightarrow>
          (let dfsNodes = dfsOnFinish E g;
               chunks = getChunks E g dfsNodes
           in if sortedDFSChunks s = chunks then (None, s)
              else setChunks E chunks (s\<lparr>sortedDFSChunks := chunks\<rparr>)))"

definition onGraphUpdated :: "env \<Rightarrow> state \<Rightarrow> exn option \<times> state" where
  "onGraphUpdated E s = updateChunks E s"

definition UIGraph_clear :: "state \<Rightarrow> state" where
  "UIGraph_clear s =
     (let s1 = (case graph s of
                  Some g \<Rightarrow> emit (GraphDeleteLater g) (s\<lparr>graph := None\<rparr>)
                | None \<Rightarrow> s)
      in s1\<lparr>sortedDFSChunks := [], undoStack := UndoStack_clear (undoStack s1)\<rparr>)"

text \<open>
  Modelled from the spec: \<open>Graph.update()\<close> forces a topology recompute, that is, the
  graph emits \<open>updated\<close> and the connected slot \<open>onGraphUpdated\<close> runs before the call
  returns; an exception of the slot does not reach the caller.
\<close>

definition Graph_update :: "env \<Rightarrow> Graph \<Rightarrow> state \<Rightarrow> state" where
  "Graph_update E g s = snd (onGraphUpdated E (emit (GraphUpdate g) s))"

definition setGraph :: "env \<Rightarrow> Graph \<Rightarrow> state \<Rightarrow> exn option \<times> state" where
  "setGraph E g s =
     (case (if graph s \<noteq> None
            then (case stopExecution E s of
                    (Some e, s1) \<Rightarrow> (Some e, s1)
                  | (None, s1) \<Rightarrow> (None, UIGraph_clear s1))
            else (None, s)) of
        (Some e, s1) \<Rightarrow> (Some e, s1)
      | (None, s1) \<Rightarrow>
          (let s2 = emit (GraphConnectUpdated g) (s1\<lparr>graph := Some g\<rparr>);
               s3 = Graph_update E g s2
           in (None, emit GraphChanged s3)))"

subsection \<open>UIGraph: undoable edits\<close>

definition isListAttribute :: "Attribute \<Rightarrow> bool" where
  "isListAttribute a = (case a of ListAttribute n \<Rightarrow> True | _ \<Rightarrow> False)"

text \<open>
  \<open>dst.at(-1)\<close>, the last element of a list attribute; Python raises \<open>IndexError\<close> on an
  empty list.
\<close>

definition at_last :: "Graph \<Rightarrow> Attribute \<Rightarrow> exn + Attribute" where
  "at_last g a =
     (if listSize g a = 0 then Inl IndexError else Inr (ListElement a (listSize g a - 1)))"

definition appendAttribute :: "env \<Rightarrow> Attribute \<Rightarrow> QJsonValue + pyValue \<Rightarrow> state \<Rightarrow> state" where
  "appendAttribute E attribute v s =
     (let pyv = (case v of
                   Inl (JsonArray xs) \<Rightarrow> PyList xs
                 | Inl JsonNull \<Rightarrow> PyNone
                 | Inl (JsonObject ob) \<Rightarrow> PyDict ob
                 | Inl other \<Rightarrow> PyDict []
                 | Inr pv \<Rightarrow> pv)
      in snd (push E (ListAttributeAppendCommand attribute pyv) s))"

text \<open>
  \<open>addEdge\<close>. The \<open>with\<close> block opens the macro on entry and closes it on exit, also when
  the body raises. The list elements belong to the installed graph; with no graph installed
  the model has no element to return and \<open>at(-1)\<close> is taken to raise.
\<close>

definition addEdge :: "env \<Rightarrow> Attribute \<Rightarrow> Attribute \<Rightarrow> state \<Rightarrow> exn option \<times> state" where
  "addEdge E src dst s =
     (if isListAttribute dst \<and> \<not> isListAttribute src then
        (let s1 = s\<lparr>undoStack := beginMacro (''Insert and Add Edge on '' @ fullName E dst) (undoStack s)\<rparr>;
             s2 = appendAttribute E dst (Inl JsonNull) s1
         in case (case graph s2 of None \<Rightarrow> Inl AttributeError | Some g \<Rightarrow> at_last g dst) of
              Inl e \<Rightarrow> (Some e, s2\<lparr>undoStack := endMacro (undoStack s2)\<rparr>)
            | Inr elt \<Rightarrow>
                (let s3 = snd (push E (AddEdgeCommand src elt) s2)
                 in (None, s3\<lparr>undoStack := endMacro (undoStack s3)\<rparr>)))
      else (None, snd (push E (AddEdgeCommand src dst) s)))"

subsection \<open>Counting what happened\<close>

text \<open>
  How often an event of a kind stands in the record of events: the existence checks of a
  status file, the refreshes of a chunk from its status file, and the emissions of
  \<open>chunkStatusChanged\<close> for a chunk.
\<close>

definition occ :: "(event \<Rightarrow> bool) \<Rightarrow> state \<Rightarrow> nat" where
  "occ P s = length (filter P (events s))"



fun is_refresh :: "chunk \<Rightarrow> event \<Rightarrow> bool" where
  "is_refresh c (UpdateStatusFromCache c') = (c' = c)"
| "is_refresh c e = False"

definition refreshes :: "chunk \<Rightarrow> state \<Rightarrow> nat" where
  "refreshes c s = occ (is_refresh c) s"

fun is_notification :: "chunk \<Rightarrow> event \<Rightarrow> bool" where
  "is_notification c (ChunkStatusChanged (Some (c', st))) = (c' = c)"
| "is_notification c e = False"

definition notifications :: "chunk \<Rightarrow> state \<Rightarrow> nat" where
  "notifications c s = occ (is_notification c) s"

fun is_thread_start :: "event \<Rightarrow> bool" where
  "is_thread_start (ThreadStart nodes) = True"
| "is_thread_start e = False"

definition threadStarts :: "state \<Rightarrow> nat" where
  "threadStarts s = occ is_thread_start s"

fun is_compute_status_changed :: "event \<Rightarrow> bool" where
  "is_compute_status_changed ComputeStatusChanged = True"
| "is_compute_status_changed e = False"

definition computeStatusChanges :: "state \<Rightarrow> nat" where
  "computeStatusChanges s = occ is_compute_status_changed s"

text \<open>The value stored for a chunk in the record dictionary.\<close>

definition stored :: "state \<Rightarrow> chunk \<Rightarrow> real option" where
  "stored s c = map_of (lastModificationRecords s) c"

text \<open>The change indicator of a file-system answer: the modification time, or -1.\<close>

definition indicator :: "real option \<Rightarrow> real" where
  "indicator v = (case v of None \<Rightarrow> - 1 | Some t \<Rightarrow> t)"



subsection \<open>Example environments and states\<close>

text \<open>
  Two chunks, 0 with the status file \<open>a\<close> and 1 with the status file \<open>b\<close>. In the quiet
  environment \<open>a\<close> has the modification time 5 and \<open>b\<close> cannot be read. In the racing one
  \<open>a\<close> is there for the first observation and gone afterwards, and \<open>b\<close> has the
  modification time 7. The idle state is the one the constructor of \<open>UIGraph\<close> leaves.
\<close>

definition E_quiet :: env where
  "E_quiet =
     \<lparr>os_stat = (\<lambda>n f. if f = ''a'' then Some 5 else None),
      statusFile = (\<lambda>c. if c = 0 then ''a'' else ''b''),
      refresh = (\<lambda>n c. (RUNNING, True)),
      chunkNode = (\<lambda>c. c),
      dfsOnFinish = (\<lambda>g. if name g = ''two'' then [0, 1] else []),
      getChunks = (\<lambda>g ns. ns),
      executeGraphRaises = (\<lambda>g ns. False),
      accepts = (\<lambda>g c. True),
      fullName = (\<lambda>a. case a of ListAttribute n \<Rightarrow> n | _ \<Rightarrow> [])\<rparr>"


definition s_idle :: state where
  "s_idle =
     \<lparr>clock = 0, status = (\<lambda>c. NONE), events = [], lastModificationRecords = [],
      undoStack = \<lparr>undoList = [], redoList = [], openMacro = None\<rparr>,
      graph = Some \<lparr>name = [], listSize = (\<lambda>a. 0), edges = []\<rparr>,
      modificationCount = 0, computeThread = NeverStarted, running = False,
      submitted = False, sortedDFSChunks = []\<rparr>"

definition s_watching :: state where
  "s_watching = s_idle\<lparr>lastModificationRecords := [(0, - 1), (1, - 1)], sortedDFSChunks := [0, 1]\<rparr>"





text \<open>
  Chunk 1 reports \<open>RUNNING\<close> and the flags have been aggregated: computed externally.
  The same with a compute thread inside \<open>executeGraph\<close>: computed locally.
\<close>

definition s_external :: state where
  "s_external =
     UIGraph_onChunkStatusChanged (s_watching\<lparr>status := (\<lambda>c. if c = 1 then RUNNING else NONE)\<rparr>)"

definition s_local :: state where
  "s_local = s_external\<lparr>computeThread := Alive AtExecuteGraph None\<rparr>"

text \<open>
  A graph whose traversal yields the chunks 0 and 1, the idle state with that graph
  installed, and a state with one edit in its undo history.
\<close>

definition g_two :: Graph where
  "g_two = \<lparr>name = ''two'', listSize = (\<lambda>a. 0), edges = []\<rparr>"

definition s_two :: state where
  "s_two = s_idle\<lparr>graph := Some g_two\<rparr>"

definition s_edited :: state where
  "s_edited =
     s_watching
       \<lparr>undoStack := \<lparr>undoList = [Single (AddEdgeCommand (Attribute ''x'') (Attribute ''y''))],
                       redoList = [], openMacro = None\<rparr>,
        graph := Some \<lparr>name = [], listSize = (\<lambda>a. 0),
                       edges = [(Attribute ''x'', Attribute ''y'')]\<rparr>\<rparr>"

section \<open>Properties\<close>

subsection \<open>Reading a status file\<close>

lemma getFileLastModTime_eq:
  "getFileLastModTime E f s =
     (case os_stat E (clock s) f of
        None \<Rightarrow> (Inr (- 1), observe (OsPathExists f) s)
      | Some t \<Rightarrow>
          (case os_stat E (Suc (clock s)) f of None \<Rightarrow> Inl OSError | Some t' \<Rightarrow> Inr t',
           observe (OsPathGetmtime f) (observe (OsPathExists f) s)))"
  by (simp add: getFileLastModTime_def os_path_exists_def os_path_getmtime_def observe_def
      split: option.splits)

lemma occ_emit: "occ P (emit e s) = occ P s + (if P e then 1 else 0)"
  by (simp add: occ_def emit_def)

lemma occ_observe: "occ P (observe e s) = occ P s + (if P e then 1 else 0)"
  by (simp add: occ_def observe_def)

lemma occ_update [simp]:
  "occ P (s\<lparr>lastModificationRecords := r\<rparr>) = occ P s"
  "occ P (s\<lparr>status := st\<rparr>) = occ P s"
  "occ P (s\<lparr>running := b\<rparr>) = occ P s"
  "occ P (s\<lparr>submitted := b\<rparr>) = occ P s"
  "occ P (s\<lparr>sortedDFSChunks := cs\<rparr>) = occ P s"
  "occ P (s\<lparr>computeThread := th\<rparr>) = occ P s"
  "occ P (s\<lparr>graph := g\<rparr>) = occ P s"
  "occ P (s\<lparr>undoStack := u\<rparr>) = occ P s"
  by (simp_all add: occ_def)


lemma occ_agg: "\<not> P ComputeStatusChanged \<Longrightarrow> occ P (UIGraph_onChunkStatusChanged s) = occ P s"
  by (simp add: UIGraph_onChunkStatusChanged_def Let_def occ_emit)





subsection \<open>The poll tick\<close>






lemma emit_fields [simp]:
  "clock (emit e s) = clock s"
  "status (emit e s) = status s"
  "events (emit e s) = events s @ [e]"
  "lastModificationRecords (emit e s) = lastModificationRecords s"
  "undoStack (emit e s) = undoStack s"
  "graph (emit e s) = graph s"
  "modificationCount (emit e s) = modificationCount s"
  "computeThread (emit e s) = computeThread s"
  "running (emit e s) = running s"
  "submitted (emit e s) = submitted s"
  "sortedDFSChunks (emit e s) = sortedDFSChunks s"
  by (simp_all add: emit_def)

lemma observe_fields [simp]:
  "clock (observe e s) = Suc (clock s)"
  "status (observe e s) = status s"
  "events (observe e s) = events s @ [e]"
  "lastModificationRecords (observe e s) = lastModificationRecords s"
  "undoStack (observe e s) = undoStack s"
  "graph (observe e s) = graph s"
  "modificationCount (observe e s) = modificationCount s"
  "computeThread (observe e s) = computeThread s"
  "running (observe e s) = running s"
  "submitted (observe e s) = submitted s"
  "sortedDFSChunks (observe e s) = sortedDFSChunks s"
  by (simp_all add: observe_def)

lemma agg_fields [simp]:
  "clock (UIGraph_onChunkStatusChanged s) = clock s"
  "status (UIGraph_onChunkStatusChanged s) = status s"
  "lastModificationRecords (UIGraph_onChunkStatusChanged s) = lastModificationRecords s"
  "undoStack (UIGraph_onChunkStatusChanged s) = undoStack s"
  "graph (UIGraph_onChunkStatusChanged s) = graph s"
  "modificationCount (UIGraph_onChunkStatusChanged s) = modificationCount s"
  "computeThread (UIGraph_onChunkStatusChanged s) = computeThread s"
  "sortedDFSChunks (UIGraph_onChunkStatusChanged s) = sortedDFSChunks s"
  by (simp_all add: UIGraph_onChunkStatusChanged_def Let_def)

lemma gflmt_fields [simp]:
  "status (snd (getFileLastModTime E f s)) = status s"
  "lastModificationRecords (snd (getFileLastModTime E f s)) = lastModificationRecords s"
  "undoStack (snd (getFileLastModTime E f s)) = undoStack s"
  "graph (snd (getFileLastModTime E f s)) = graph s"
  "modificationCount (snd (getFileLastModTime E f s)) = modificationCount s"
  "computeThread (snd (getFileLastModTime E f s)) = computeThread s"
  "running (snd (getFileLastModTime E f s)) = running s"
  "submitted (snd (getFileLastModTime E f s)) = submitted s"
  "sortedDFSChunks (snd (getFileLastModTime E f s)) = sortedDFSChunks s"
  by (simp_all add: getFileLastModTime_eq split: option.splits)

lemma occ_gflmt:
  "\<not> P (OsPathExists f) \<Longrightarrow> \<not> P (OsPathGetmtime f) \<Longrightarrow> occ P (snd (getFileLastModTime E f s)) = occ P s"
  by (simp add: getFileLastModTime_eq occ_observe split: option.splits)

lemma map_of_dict_set: "map_of (dict_set d k v) = (map_of d)(k \<mapsto> v)"
  by (induction d) auto

lemma dict_keys_dict_set:
  "dict_keys (dict_set d k v) = (if k \<in> set (dict_keys d) then dict_keys d else dict_keys d @ [k])"
  by (induction d) (force simp: dict_keys_def)+

lemma stored_fields [simp]:
  "stored (emit e s) c = stored s c"
  "stored (observe e s) c = stored s c"
  "stored (UIGraph_onChunkStatusChanged s) c = stored s c"
  "stored (snd (getFileLastModTime E f s)) c = stored s c"
  "stored (s\<lparr>status := st\<rparr>) c = stored s c"
  "stored (s\<lparr>lastModificationRecords := dict_set (lastModificationRecords s) k v\<rparr>) c =
     (if c = k then Some v else stored s c)"
  by (simp_all add: stored_def map_of_dict_set)

lemma clock_gflmt: "clock s \<le> clock (snd (getFileLastModTime E f s))"
  by (simp add: getFileLastModTime_eq split: option.splits)

text \<open>The slot, run for a chunk: what it does in terms of the read.\<close>

lemma handler_eq:
  "onChunkStatusChanged E (Some c) s =
     (if c \<notin> set (dict_keys (lastModificationRecords s)) then (Some AssertionError, s)
      else case fst (getFileLastModTime E (statusFile E c) s) of
             Inl e \<Rightarrow> (Some e, snd (getFileLastModTime E (statusFile E c) s))
           | Inr m \<Rightarrow>
               (None, emit_chunkStatusChanged (Some (c, status s c))
                  ((snd (getFileLastModTime E (statusFile E c) s))
                     \<lparr>lastModificationRecords := dict_set (lastModificationRecords s) c m\<rparr>)))"
  by (auto simp: onChunkStatusChanged_def split: prod.splits sum.splits)
     (metis gflmt_fields(1) gflmt_fields(2) snd_conv)+

lemma clock_handler: "clock s \<le> clock (snd (onChunkStatusChanged E sender s))"
  using clock_gflmt [of s E "statusFile E (the sender)"]
proof (cases sender)
  case None
  then show ?thesis by (simp add: onChunkStatusChanged_def)
next
  case (Some c)
  then show ?thesis
    using clock_gflmt [of s E "statusFile E c"]
    by (auto simp: handler_eq emit_chunkStatusChanged_def split: sum.splits)
qed

lemma handler_other:
  assumes "c' \<noteq> c"
  shows "stored (snd (onChunkStatusChanged E (Some c') s)) c = stored s c"
    and "\<not> P ComputeStatusChanged \<Longrightarrow> (\<And>st. \<not> P (ChunkStatusChanged (Some (c', st)))) \<Longrightarrow>
         \<not> P (OsPathExists (statusFile E c')) \<Longrightarrow> \<not> P (OsPathGetmtime (statusFile E c')) \<Longrightarrow>
         occ P (snd (onChunkStatusChanged E (Some c') s)) = occ P s"
  using assms
  by (auto simp: handler_eq emit_chunkStatusChanged_def stored_def occ_agg occ_emit occ_gflmt map_of_dict_set
      split: sum.splits)

lemma refresh_fields_clock: "clock s \<le> clock (updateStatusFromCache E c s)"
proof -
  obtain st b where r: "refresh E (clock s) c = (st, b)" by fastforce
  let ?s1 = "observe (UpdateStatusFromCache c) (s\<lparr>status := (status s)(c := st)\<rparr>)"
  have "clock s \<le> clock ?s1" by simp
  also have "clock ?s1 \<le> clock (snd (onChunkStatusChanged E (Some c) ?s1))" by (rule clock_handler)
  finally show ?thesis using r by (auto simp: updateStatusFromCache_def Let_def)
qed

lemma refresh_other:
  assumes "c' \<noteq> c"
  shows "stored (updateStatusFromCache E c' s) c = stored s c"
    and "\<not> P ComputeStatusChanged \<Longrightarrow> (\<And>st. \<not> P (ChunkStatusChanged (Some (c', st)))) \<Longrightarrow>
         \<not> P (OsPathExists (statusFile E c')) \<Longrightarrow> \<not> P (OsPathGetmtime (statusFile E c')) \<Longrightarrow>
         \<not> P (UpdateStatusFromCache c') \<Longrightarrow>
         occ P (updateStatusFromCache E c' s) = occ P s"
  using assms
  by (auto simp: updateStatusFromCache_def Let_def handler_other occ_observe split: prod.splits)

lemma body_other:
  assumes "c' \<noteq> c"
  shows "stored (snd (checkFileTimes_body E c' t s)) c = stored s c"
    and "refreshes c (snd (checkFileTimes_body E c' t s)) = refreshes c s"
    and "notifications c (snd (checkFileTimes_body E c' t s)) = notifications c s"
proof -
  obtain r s1 where g: "getFileLastModTime E (statusFile E c') s = (r, s1)" by fastforce
  have s1: "stored s1 c = stored s c" "refreshes c s1 = refreshes c s"
    "notifications c s1 = notifications c s"
    using stored_fields(4) [of E "statusFile E c'" s c]
      occ_gflmt [of _ "statusFile E c'" E s] g
    by (simp_all add: refreshes_def notifications_def)
  show "stored (snd (checkFileTimes_body E c' t s)) c = stored s c"
    using assms g s1 by (auto simp: checkFileTimes_body_def Let_def refresh_other split: sum.splits)
  show "refreshes c (snd (checkFileTimes_body E c' t s)) = refreshes c s"
    using assms g s1
    by (auto simp: checkFileTimes_body_def Let_def refresh_other refreshes_def occ_emit split: sum.splits)
  show "notifications c (snd (checkFileTimes_body E c' t s)) = notifications c s"
    using assms g s1
    by (auto simp: checkFileTimes_body_def Let_def refresh_other notifications_def occ_emit split: sum.splits)
qed

text \<open>The read of a file that stays as it is.\<close>

lemma gflmt_stable:
  assumes "\<forall>n\<ge>clock s. os_stat E n f = v"
  shows "fst (getFileLastModTime E f s) = Inr (indicator v)"
  using assms by (cases v) (auto simp: getFileLastModTime_eq indicator_def)

lemma handler_stable:
  assumes "\<forall>n\<ge>clock s. os_stat E n (statusFile E c) = v"
    and "c \<in> set (dict_keys (lastModificationRecords s))"
  shows "fst (onChunkStatusChanged E (Some c) s) = None"
    and "stored (snd (onChunkStatusChanged E (Some c) s)) c = Some (indicator v)"
    and "refreshes c (snd (onChunkStatusChanged E (Some c) s)) = refreshes c s"
    and "notifications c (snd (onChunkStatusChanged E (Some c) s)) = Suc (notifications c s)"
  using assms gflmt_stable [OF assms(1)]
  by (simp_all add: handler_eq emit_chunkStatusChanged_def refreshes_def notifications_def
      occ_agg occ_emit occ_gflmt stored_def map_of_dict_set)

lemma body_same:
  assumes st: "\<forall>n\<ge>clock s. os_stat E n (statusFile E c) = v"
  shows "fst (checkFileTimes_body E c t s) = None"
    and "stored (snd (checkFileTimes_body E c t s)) c =
           (if indicator v \<noteq> t then Some (indicator v) else stored s c)"
    and "refreshes c (snd (checkFileTimes_body E c t s)) =
           refreshes c s + (if indicator v \<noteq> t then 1 else 0)"
    and "notifications c (snd (checkFileTimes_body E c t s)) =
           notifications c s +
           (if indicator v \<noteq> t \<and> snd (refresh E (clock s + (if v = None then 1 else 2)) c)
            then 1 else 0)"
proof -
  let ?f = "statusFile E c"
  obtain s1 where g: "getFileLastModTime E ?f s = (Inr (indicator v), s1)"
    using gflmt_stable [OF st] by (cases "getFileLastModTime E ?f s") auto
  have k1: "clock s \<le> clock s1" using clock_gflmt [of s E ?f] g by simp
  have k2: "clock s1 = clock s + (if v = None then 1 else 2)"
    using g st by (cases v) (auto simp: getFileLastModTime_eq)
  have f1: "stored s1 c = stored s c" "refreshes c s1 = refreshes c s"
    "notifications c s1 = notifications c s"
    using stored_fields(4) [of E ?f s c] occ_gflmt [of _ ?f E s] g
    by (simp_all add: refreshes_def notifications_def)
  define s2 where "s2 = s1\<lparr>lastModificationRecords := dict_set (lastModificationRecords s1) c (indicator v)\<rparr>"
  obtain stt b' where r: "refresh E (clock s2) c = (stt, b')" by fastforce
  define s2' where "s2' = observe (UpdateStatusFromCache c) (s2\<lparr>status := (status s2)(c := stt)\<rparr>)"
  have st2: "\<forall>n\<ge>clock s2'. os_stat E n ?f = v" using st k1 by (simp add: s2'_def s2_def)
  have in2: "c \<in> set (dict_keys (lastModificationRecords s2'))"
    by (simp add: s2'_def s2_def dict_keys_dict_set)
  note h = handler_stable [OF st2 in2]
  define s3 where "s3 = updateStatusFromCache E c s2"
  have s3: "s3 = (if b' then snd (onChunkStatusChanged E (Some c) s2') else s2')"
    using r by (simp add: s3_def updateStatusFromCache_def Let_def s2'_def)
  have base: "stored s2' c = Some (indicator v)" "refreshes c s2' = Suc (refreshes c s)"
    "notifications c s2' = notifications c s"
    using f1 by (simp_all add: s2'_def s2_def refreshes_def notifications_def occ_observe)
  have r3: "stored s3 c = Some (indicator v)" "refreshes c s3 = Suc (refreshes c s)"
    "notifications c s3 = notifications c s + (if b' then 1 else 0)"
    using h base by (simp_all add: s3)
  have body: "checkFileTimes_body E c t s =
      (None, if indicator v \<noteq> t then emit (LogDebug (chunkNode E c) (status s3 c)) s3 else s1)"
    using g by (simp add: checkFileTimes_body_def Let_def s3_def s2_def)
  show "fst (checkFileTimes_body E c t s) = None" by (simp add: body)
  show "stored (snd (checkFileTimes_body E c t s)) c =
           (if indicator v \<noteq> t then Some (indicator v) else stored s c)"
    using r3 f1 by (simp add: body)
  show "refreshes c (snd (checkFileTimes_body E c t s)) =
           refreshes c s + (if indicator v \<noteq> t then 1 else 0)"
    using r3 f1 by (simp add: body refreshes_def occ_emit)
  have "b' = snd (refresh E (clock s + (if v = None then 1 else 2)) c)"
    using r k2 by (simp add: s2_def)
  then show "notifications c (snd (checkFileTimes_body E c t s)) =
           notifications c s +
           (if indicator v \<noteq> t \<and> snd (refresh E (clock s + (if v = None then 1 else 2)) c)
            then 1 else 0)"
    using r3 f1 by (simp add: body notifications_def occ_emit)
qed

lemma clock_body: "clock s \<le> clock (snd (checkFileTimes_body E c t s))"
proof -
  obtain r s1 where g: "getFileLastModTime E (statusFile E c) s = (r, s1)" by fastforce
  have 1: "clock s \<le> clock s1" using clock_gflmt [of s E "statusFile E c"] g by simp
  have "clock s1 \<le> clock (updateStatusFromCache E c (s1\<lparr>lastModificationRecords := d\<rparr>))" for d
    using refresh_fields_clock [of "s1\<lparr>lastModificationRecords := d\<rparr>" E c] by simp
  with 1 show ?thesis
    using g by (auto simp: checkFileTimes_body_def Let_def split: sum.splits intro: order_trans)
qed

lemma loop_unchanged:
  assumes "\<forall>n\<ge>clock s. os_stat E n (statusFile E c) = v"
    and "\<forall>t. (c, t) \<in> set items \<longrightarrow> t = indicator v"
  shows "stored (snd (checkFileTimes_loop E items s)) c = stored s c \<and>
         refreshes c (snd (checkFileTimes_loop E items s)) = refreshes c s \<and>
         notifications c (snd (checkFileTimes_loop E items s)) = notifications c s"
  using assms
proof (induction items arbitrary: s)
  case Nil
  then show ?case by simp
next
  case (Cons it items)
  obtain c' t' where it: "it = (c', t')" by (cases it)
  obtain r s1 where b: "checkFileTimes_body E c' t' s = (r, s1)" by fastforce
  have k: "clock s \<le> clock s1" using clock_body [of s E c' t'] b by simp
  have same: "stored s1 c = stored s c \<and> refreshes c s1 = refreshes c s \<and>
      notifications c s1 = notifications c s"
  proof (cases "c' = c")
    case True
    with Cons.prems(2) it have "t' = indicator v" by simp
    with body_same(2,3,4) [OF Cons.prems(1), of t']
    show ?thesis using b True by simp
  next
    case False
    with body_other [of c' c E t' s] show ?thesis using b by simp
  qed
  show ?case
  proof (cases r)
    case None
    from Cons.prems k have "\<forall>n\<ge>clock s1. os_stat E n (statusFile E c) = v" by simp
    moreover from Cons.prems(2) have "\<forall>t. (c, t) \<in> set items \<longrightarrow> t = indicator v" by simp
    ultimately show ?thesis using Cons.IH [of s1] same it b None by simp
  next
    case (Some e)
    then show ?thesis using same it b by simp
  qed
qed


lemma stored_distinct:
  "distinct (dict_keys (lastModificationRecords s)) \<Longrightarrow>
   (stored s c = Some t) = ((c, t) \<in> set (lastModificationRecords s))"
  by (simp add: stored_def dict_keys_def)








subsection \<open>C1: a tick and records that cannot be read\<close>




subsection \<open>C2: when a tick registers a change\<close>





subsection \<open>C5: a reported change is not reported again\<close>

text \<open>
  Claim C5. A watched unit reports a change of its own while its record stands at some
  value and keeps standing there: the slot stores the record's current indicator and emits
  one notification. In every later state in which that stored indicator is still the
  unit's, a poll tick neither refreshes the unit from its record nor emits a notification
  for it, whatever happens to the other units in the tick.
\<close>

theorem self_report_not_refired:
  assumes "c \<in> set (dict_keys (lastModificationRecords s))"
    and "\<forall>n\<ge>clock s. os_stat E n (statusFile E c) = v"
    and "distinct (dict_keys (lastModificationRecords s'))"
    and "clock s \<le> clock s'"
    and "stored s' c = stored (snd (onChunkStatusChanged E (Some c) s)) c"
  shows "fst (onChunkStatusChanged E (Some c) s) = None \<and>
         stored (snd (onChunkStatusChanged E (Some c) s)) c = Some (indicator v) \<and>
         notifications c (snd (onChunkStatusChanged E (Some c) s)) = notifications c s + 1 \<and>
         refreshes c (snd (timerEvent E s')) = refreshes c s' \<and>
         notifications c (snd (timerEvent E s')) = notifications c s' \<and>
         stored (snd (timerEvent E s')) c = Some (indicator v)"
proof -
  note h = handler_stable [OF assms(2,1)]
  have st': "\<forall>n\<ge>clock s'. os_stat E n (statusFile E c) = v" using assms(2,4) by simp
  have s': "stored s' c = Some (indicator v)" using assms(5) h(2) by simp
  have "t = indicator v" if "(c, t) \<in> set (lastModificationRecords s')" for t
  proof -
    from that have "stored s' c = Some t" by (simp add: stored_distinct [OF assms(3)])
    with s' show ?thesis by simp
  qed
  then have "\<forall>t. (c, t) \<in> set (lastModificationRecords s') \<longrightarrow> t = indicator v" by blast
  from loop_unchanged [OF st' this] h s' show ?thesis
    by (simp add: timerEvent_def checkFileTimes_def)
qed

text \<open>
  The theorem at work: chunk 0 of the quiet environment reports, and the tick right after
  the report leaves its one notification alone.
\<close>

theorem self_report_not_refired_witness:
  "fst (onChunkStatusChanged E_quiet (Some 0) s_watching) = None \<and>
   stored (snd (onChunkStatusChanged E_quiet (Some 0) s_watching)) 0 = Some 5 \<and>
   notifications 0 (snd (onChunkStatusChanged E_quiet (Some 0) s_watching)) = 1 \<and>
   refreshes 0 (snd (timerEvent E_quiet (snd (onChunkStatusChanged E_quiet (Some 0) s_watching)))) = 0 \<and>
   notifications 0 (snd (timerEvent E_quiet (snd (onChunkStatusChanged E_quiet (Some 0) s_watching)))) = 1"
  using self_report_not_refired [of 0 s_watching E_quiet "Some 5"
      "snd (onChunkStatusChanged E_quiet (Some 0) s_watching)"]
  by (simp add: timerEvent_def checkFileTimes_def checkFileTimes_body_def getFileLastModTime_eq
      handler_eq emit_chunkStatusChanged_def UIGraph_onChunkStatusChanged_def
      refreshes_def notifications_def occ_def stored_def dict_keys_def indicator_def Let_def
      E_quiet_def s_watching_def s_idle_def)

subsection \<open>C9: the precondition of the self-report slot\<close>




subsection \<open>C4: computing externally\<close>

lemma Alive_iff: "isComputingLocally s = (\<exists>p nodes. computeThread s = Alive p nodes)"
  by (cases "computeThread s") (simp_all add: isComputingLocally_def)

lemma agg_flags:
  "running (UIGraph_onChunkStatusChanged s) = (\<exists>ch\<in>set (sortedDFSChunks s). status s ch = RUNNING)"
  "submitted (UIGraph_onChunkStatusChanged s) = (\<exists>ch\<in>set (sortedDFSChunks s). status s ch = SUBMITTED)"
  by (auto simp: UIGraph_onChunkStatusChanged_def Let_def list_ex_iff)

text \<open>
  Claim C4. \<open>computingExternally\<close> holds exactly when one of the two aggregated flags is
  set and no compute thread is alive; the flags, once aggregated, say that some chunk of
  the sorted list has the status \<open>RUNNING\<close>, respectively \<open>SUBMITTED\<close>. So
  \<open>computingLocally\<close> and \<open>computingExternally\<close> never hold together: while a compute
  thread is alive the graph is reported as computed locally, whatever the flags say.
\<close>

theorem computingExternally_iff:
  "isComputingExternally s = ((running s \<or> submitted s) \<and> \<not> isComputingLocally s) \<and>
   isComputingLocally s = (\<exists>p nodes. computeThread s = Alive p nodes) \<and>
   \<not> (isComputingLocally s \<and> isComputingExternally s) \<and>
   isComputing s = (isComputingLocally s \<or> running s \<or> submitted s) \<and>
   isComputingExternally (UIGraph_onChunkStatusChanged s) =
     ((\<exists>ch\<in>set (sortedDFSChunks s). status s ch = RUNNING \<or> status s ch = SUBMITTED) \<and>
      \<not> isComputingLocally s)"
  using agg_flags [of s]
  by (auto simp: isComputingExternally_def isComputing_def Alive_iff)

text \<open>
  The theorem at work: chunk 1 reports \<open>RUNNING\<close>; without a thread the state is computed
  externally, with a live thread it is computed locally and not externally.
\<close>

theorem computingExternally_iff_witness:
  "isComputingExternally s_external \<and> \<not> isComputingLocally s_external \<and>
   running s_local \<and> isComputingLocally s_local \<and> \<not> isComputingExternally s_local \<and>
   isComputing s_local"
  using computingExternally_iff [of s_external] computingExternally_iff [of s_local]
  by (simp add: s_external_def s_local_def s_watching_def s_idle_def UIGraph_onChunkStatusChanged_def Let_def)

subsection \<open>C6: execute while computing\<close>

lemma worker_step_Terminated: "computeThread s = Terminated \<Longrightarrow> (worker_step E ^^ k) s = s"
  by (induction k) (simp_all add: worker_step_def)

lemma worker_three:
  assumes "computeThread s = Alive AtStartEmit nodes"
  shows "computeThread (worker_step E s) = Alive AtExecuteGraph nodes"
    and "computeThread (worker_step E (worker_step E s)) = Alive AtFinalEmit nodes"
    and "computeThread (worker_step E (worker_step E (worker_step E s))) = Terminated"
    and "threadStarts (worker_step E s) = threadStarts s"
    and "threadStarts (worker_step E (worker_step E s)) = threadStarts s"
    and "computeStatusChanges (worker_step E s) = computeStatusChanges s + 1"
    and "computeStatusChanges (worker_step E (worker_step E s)) = computeStatusChanges s + 1"
  using assms
  by (simp_all add: worker_step_def Let_def threadStarts_def computeStatusChanges_def occ_emit)

text \<open>
  Claim C6. While the graph is being computed, locally or externally, \<open>execute\<close> changes
  nothing: no thread is started and nothing is emitted. From a state that is not computing,
  \<open>execute\<close> starts one thread; as long as that thread has not run to its end, however
  many of its statements it has run, a second \<open>execute\<close> changes nothing, so exactly one
  thread was started, and exactly one start notification was emitted once the thread has
  run its first statement.
\<close>

theorem execute_once:
  "(isComputing s \<longrightarrow> execute node s = s) \<and>
   (\<not> isComputing s \<longrightarrow>
      isComputingLocally (execute node s) \<and>
      threadStarts (execute node s) = threadStarts s + 1 \<and>
      computeStatusChanges (execute node s) = computeStatusChanges s \<and>
      (\<forall>k. isComputingLocally ((worker_step E ^^ k) (execute node s)) \<longrightarrow>
         execute node' ((worker_step E ^^ k) (execute node s)) = (worker_step E ^^ k) (execute node s) \<and>
         threadStarts ((worker_step E ^^ k) (execute node s)) = threadStarts s + 1 \<and>
         computeStatusChanges ((worker_step E ^^ k) (execute node s)) =
           computeStatusChanges s + (if k = 0 then 0 else 1)))"
proof -
  have a: "execute node s = s" if "isComputing s" using that by (simp add: execute_def)
  define nodes where "nodes = (case node of Some n \<Rightarrow> Some [n] | None \<Rightarrow> None)"
  define s0 where "s0 = execute node s"
  have b: "isComputingLocally s0 \<and> threadStarts s0 = threadStarts s + 1 \<and>
      computeStatusChanges s0 = computeStatusChanges s \<and>
      (\<forall>k. isComputingLocally ((worker_step E ^^ k) s0) \<longrightarrow>
         execute node' ((worker_step E ^^ k) s0) = (worker_step E ^^ k) s0 \<and>
         threadStarts ((worker_step E ^^ k) s0) = threadStarts s + 1 \<and>
         computeStatusChanges ((worker_step E ^^ k) s0) =
           computeStatusChanges s + (if k = 0 then 0 else 1))"
    if n: "\<not> isComputing s"
  proof -
    have t0: "computeThread s0 = Alive AtStartEmit nodes"
      using n by (simp add: s0_def execute_def nodes_def Let_def)
    have c0: "threadStarts s0 = threadStarts s + 1" "computeStatusChanges s0 = computeStatusChanges s"
      using n by (simp_all add: s0_def execute_def Let_def threadStarts_def computeStatusChanges_def occ_emit)
    note w = worker_three [OF t0, of E]
    have noop: "execute node' x = x" if "isComputingLocally x" for x
      using that by (simp add: execute_def isComputing_def)
    have k: "execute node' ((worker_step E ^^ k) s0) = (worker_step E ^^ k) s0 \<and>
         threadStarts ((worker_step E ^^ k) s0) = threadStarts s + 1 \<and>
         computeStatusChanges ((worker_step E ^^ k) s0) =
           computeStatusChanges s + (if k = 0 then 0 else 1)"
      if al: "isComputingLocally ((worker_step E ^^ k) s0)" for k
    proof -
      have "k = 0 \<or> k = 1 \<or> k = 2 \<or> (\<exists>j. k = j + 3)" by presburger
      then consider "k = 0" | "k = 1" | "k = 2" | j where "k = j + 3" by blast
      then show ?thesis
      proof cases
        case 1
        with c0 noop [OF al] show ?thesis by simp
      next
        case 2
        with c0 w noop [OF al] show ?thesis by simp
      next
        case 3
        with c0 w noop [OF al] show ?thesis by (simp add: numeral_2_eq_2)
      next
        case 4
        have "(worker_step E ^^ k) s0 = (worker_step E ^^ j) ((worker_step E ^^ 3) s0)"
          using 4 by (simp add: funpow_add)
        also have "\<dots> = (worker_step E ^^ 3) s0"
          using w(3) by (intro worker_step_Terminated) (simp add: numeral_3_eq_3)
        finally have "computeThread ((worker_step E ^^ k) s0) = Terminated"
          using w(3) by (simp add: numeral_3_eq_3)
        with al show ?thesis by (simp add: isComputingLocally_def)
      qed
    qed
    from t0 c0 k show ?thesis by (simp add: isComputingLocally_def)
  qed
  from a b show ?thesis unfolding s0_def by blast
qed


text \<open>
  The theorem at work: \<open>execute\<close> on the externally computed state; and from the idle
  state \<open>execute\<close>, the thread's first statement, \<open>execute\<close> again.
\<close>

theorem execute_once_witness:
  "execute (Some 3) s_external = s_external \<and>
   execute None (worker_step E_quiet (execute (Some 3) s_idle)) =
     worker_step E_quiet (execute (Some 3) s_idle) \<and>
   threadStarts (execute None (worker_step E_quiet (execute (Some 3) s_idle))) = 1 \<and>
   computeStatusChanges (execute None (worker_step E_quiet (execute (Some 3) s_idle))) = 1"
proof -
  have 1: "isComputing s_external"
    by (simp add: isComputing_def isComputingExternally_def isComputingLocally_def s_external_def
        s_watching_def s_idle_def UIGraph_onChunkStatusChanged_def Let_def)
  have 2: "\<not> isComputing s_idle"
    by (simp add: isComputing_def isComputingExternally_def isComputingLocally_def s_idle_def)
  have 3: "isComputingLocally ((worker_step E_quiet ^^ 1) (execute (Some 3) s_idle))"
    by (simp add: isComputingLocally_def worker_step_def execute_def isComputing_def
        isComputingExternally_def s_idle_def emit_def Let_def)
  have 4: "threadStarts s_idle = 0" "computeStatusChanges s_idle = 0"
    by (simp_all add: threadStarts_def computeStatusChanges_def occ_def s_idle_def)
  from execute_once [of s_external "Some 3" E_quiet None] 1
  have a: "execute (Some 3) s_external = s_external" by blast
  from execute_once [of s_idle "Some 3" E_quiet None] 2 3
  have "execute None ((worker_step E_quiet ^^ 1) (execute (Some 3) s_idle)) =
          (worker_step E_quiet ^^ 1) (execute (Some 3) s_idle) \<and>
        threadStarts ((worker_step E_quiet ^^ 1) (execute (Some 3) s_idle)) = threadStarts s_idle + 1 \<and>
        computeStatusChanges ((worker_step E_quiet ^^ 1) (execute (Some 3) s_idle)) =
          computeStatusChanges s_idle + (if (1::nat) = 0 then 0 else 1)"
    by blast
  with a 4 show ?thesis by simp
qed

subsection \<open>C7: stopExecution\<close>

lemma worker_step_events: "\<exists>w. events (worker_step E s) = events s @ w \<and>
    (\<forall>e\<in>set w. e = ComputeStatusChanged \<or> e = LogError \<or> (\<exists>g ns. e = ExecuteGraph g ns))"
  by (auto simp: worker_step_def Let_def split: Thread.splits position.splits)

lemma worker_step_graph [simp]: "graph (worker_step E s) = graph s"
  by (auto simp: worker_step_def Let_def split: Thread.splits position.splits)

lemma worker_run:
  "computeThread ((worker_step E ^^ remaining (computeThread s)) s) =
     (if isComputingLocally s then Terminated else computeThread s) \<and>
   (\<exists>w. events ((worker_step E ^^ remaining (computeThread s)) s) = events s @ w \<and>
    (\<forall>e\<in>set w. e = ComputeStatusChanged \<or> e = LogError \<or> (\<exists>g ns. e = ExecuteGraph g ns)))"
proof (cases "computeThread s")
  case NeverStarted
  then show ?thesis by (simp add: isComputingLocally_def)
next
  case (Alive p nodes)
  then show ?thesis
    by (cases p) (auto simp: isComputingLocally_def worker_step_def Let_def numeral_3_eq_3 numeral_2_eq_2)
next
  case Terminated
  then show ?thesis by (simp add: isComputingLocally_def)
qed




subsection \<open>Replacing the watch list\<close>

lemma fold_emit_fields [simp]:
  "graph (fold (\<lambda>ch. emit (f ch)) cs s) = graph s"
  "sortedDFSChunks (fold (\<lambda>ch. emit (f ch)) cs s) = sortedDFSChunks s"
  "undoStack (fold (\<lambda>ch. emit (f ch)) cs s) = undoStack s"
  "computeThread (fold (\<lambda>ch. emit (f ch)) cs s) = computeThread s"
  "lastModificationRecords (fold (\<lambda>ch. emit (f ch)) cs s) = lastModificationRecords s"
  by (induction cs arbitrary: s) simp_all

lemma clear_fields [simp]:
  "graph (ChunksMonitor_clear s) = graph s"
  "sortedDFSChunks (ChunksMonitor_clear s) = sortedDFSChunks s"
  "undoStack (ChunksMonitor_clear s) = undoStack s"
  "computeThread (ChunksMonitor_clear s) = computeThread s"
  "lastModificationRecords (ChunksMonitor_clear s) = []"
  by (simp_all add: ChunksMonitor_clear_def)

lemma setChunks_loop_fields:
  "graph (snd (setChunks_loop E cs s)) = graph s \<and>
   sortedDFSChunks (snd (setChunks_loop E cs s)) = sortedDFSChunks s \<and>
   undoStack (snd (setChunks_loop E cs s)) = undoStack s \<and>
   computeThread (snd (setChunks_loop E cs s)) = computeThread s"
proof (induction cs arbitrary: s)
  case Nil
  then show ?case by simp
next
  case (Cons c cs)
  obtain r s1 where g: "getFileLastModTime E (statusFile E c) s = (r, s1)" by fastforce
  have f: "graph s1 = graph s" "sortedDFSChunks s1 = sortedDFSChunks s"
    "undoStack s1 = undoStack s" "computeThread s1 = computeThread s"
    using gflmt_fields [of E "statusFile E c" s] g by simp_all
  show ?case
  proof (cases r)
    case (Inl e)
    then show ?thesis using g f by simp
  next
    case (Inr m)
    then show ?thesis
      using g f Cons.IH [of "emit (Connect c)
        (s1\<lparr>lastModificationRecords := dict_set (lastModificationRecords s1) c m\<rparr>)"]
      by simp
  qed
qed

lemma setChunks_loop_keys:
  assumes "fst (setChunks_loop E cs s) = None" and "distinct cs"
    and "set cs \<inter> set (dict_keys (lastModificationRecords s)) = {}"
  shows "dict_keys (lastModificationRecords (snd (setChunks_loop E cs s))) =
           dict_keys (lastModificationRecords s) @ cs"
  using assms
proof (induction cs arbitrary: s)
  case Nil
  then show ?case by simp
next
  case (Cons c cs)
  obtain r s1 where g: "getFileLastModTime E (statusFile E c) s = (r, s1)" by fastforce
  have f: "lastModificationRecords s1 = lastModificationRecords s"
    using gflmt_fields(2) [of E "statusFile E c" s] g by simp
  from Cons.prems(1) g obtain m where r: "r = Inr m" by (cases r) auto
  define s2 where "s2 = emit (Connect c)
        (s1\<lparr>lastModificationRecords := dict_set (lastModificationRecords s1) c m\<rparr>)"
  have k2: "dict_keys (lastModificationRecords s2) = dict_keys (lastModificationRecords s) @ [c]"
    using Cons.prems(3) f by (simp add: s2_def dict_keys_dict_set)
  have step: "setChunks_loop E (c # cs) s = setChunks_loop E cs s2"
    using g r by (simp add: s2_def)
  have "set cs \<inter> set (dict_keys (lastModificationRecords s2)) = {}"
    using Cons.prems(2,3) k2 by auto
  from Cons.IH [OF _ _ this] Cons.prems(1,2) step k2 show ?case by simp
qed

lemma setChunks_fields:
  "graph (snd (setChunks E cs s)) = graph s"
  "sortedDFSChunks (snd (setChunks E cs s)) = sortedDFSChunks s"
  "undoStack (snd (setChunks E cs s)) = undoStack s"
  "computeThread (snd (setChunks E cs s)) = computeThread s"
  using setChunks_loop_fields [of E cs "ChunksMonitor_clear s"]
  by (auto simp: setChunks_def emit_chunkStatusChanged_def split: prod.splits option.splits)

lemma setChunks_keys:
  assumes "fst (setChunks E cs s) = None" and "distinct cs"
  shows "dict_keys (lastModificationRecords (snd (setChunks E cs s))) = cs"
proof -
  from assms(1) have n: "fst (setChunks_loop E cs (ChunksMonitor_clear s)) = None"
    by (auto simp: setChunks_def split: prod.splits option.splits)
  from setChunks_loop_keys [OF n assms(2)] n show ?thesis
    by (auto simp: setChunks_def emit_chunkStatusChanged_def dict_keys_def split: prod.splits option.splits)
qed

subsection \<open>C8: recomputing the chunks\<close>

text \<open>
  Claim C8. With a graph installed, \<open>updateChunks\<close> recomputes the chunk sequence of the
  depth-first finish order. When it equals the installed sequence, in composition and
  order, nothing is done: the state is unchanged, and so is the monitor's record
  dictionary. Otherwise the new sequence is installed and handed to the monitor's
  \<open>setChunks\<close>, after which, when \<open>setChunks\<close> returns, the monitor watches exactly the new
  sequence. In both cases the new sequence is the installed one afterwards, so running
  \<open>updateChunks\<close> again changes nothing.
\<close>

theorem updateChunks_idempotent:
  assumes "graph s = Some g"
  shows "(sortedDFSChunks s = getChunks E g (dfsOnFinish E g) \<longrightarrow> updateChunks E s = (None, s)) \<and>
         (sortedDFSChunks s \<noteq> getChunks E g (dfsOnFinish E g) \<longrightarrow>
            updateChunks E s =
              setChunks E (getChunks E g (dfsOnFinish E g))
                (s\<lparr>sortedDFSChunks := getChunks E g (dfsOnFinish E g)\<rparr>) \<and>
            (fst (updateChunks E s) = None \<and> distinct (getChunks E g (dfsOnFinish E g)) \<longrightarrow>
               dict_keys (lastModificationRecords (snd (updateChunks E s))) =
                 getChunks E g (dfsOnFinish E g))) \<and>
         sortedDFSChunks (snd (updateChunks E s)) = getChunks E g (dfsOnFinish E g) \<and>
         updateChunks E (snd (updateChunks E s)) = (None, snd (updateChunks E s))"
proof -
  let ?cs = "getChunks E g (dfsOnFinish E g)"
  let ?s' = "snd (updateChunks E s)"
  have same: "updateChunks E s = (None, s)" if "sortedDFSChunks s = ?cs"
    using that assms by (simp add: updateChunks_def Let_def)
  have diff: "updateChunks E s = setChunks E ?cs (s\<lparr>sortedDFSChunks := ?cs\<rparr>)"
    if "sortedDFSChunks s \<noteq> ?cs"
    using that assms by (simp add: updateChunks_def Let_def)
  have keys: "dict_keys (lastModificationRecords ?s') = ?cs"
    if "sortedDFSChunks s \<noteq> ?cs" "fst (updateChunks E s) = None" "distinct ?cs"
    using that setChunks_keys [of E ?cs "s\<lparr>sortedDFSChunks := ?cs\<rparr>"] diff by simp
  have inst: "sortedDFSChunks ?s' = ?cs" and gr: "graph ?s' = Some g"
    using same diff assms setChunks_fields(1,2) [of E ?cs "s\<lparr>sortedDFSChunks := ?cs\<rparr>"]
    by (cases "sortedDFSChunks s = ?cs"; simp)+
  have "updateChunks E ?s' = (None, ?s')"
    using inst gr by (simp add: updateChunks_def Let_def)
  with same diff keys inst show ?thesis by blast
qed

text \<open>
  The theorem at work: the idle state, whose graph has no chunks, and the same state with
  the graph of the chunks 0 and 1 installed.
\<close>

theorem updateChunks_idempotent_witness:
  "updateChunks E_quiet s_idle = (None, s_idle) \<and>
   sortedDFSChunks (snd (updateChunks E_quiet s_two)) = [0, 1] \<and>
   dict_keys (lastModificationRecords (snd (updateChunks E_quiet s_two))) = [0, 1] \<and>
   updateChunks E_quiet (snd (updateChunks E_quiet s_two)) = (None, snd (updateChunks E_quiet s_two))"
proof -
  have 1: "graph s_idle = Some \<lparr>name = [], listSize = (\<lambda>a. 0), edges = []\<rparr>"
    "sortedDFSChunks s_idle = getChunks E_quiet \<lparr>name = [], listSize = (\<lambda>a. 0), edges = []\<rparr>
       (dfsOnFinish E_quiet \<lparr>name = [], listSize = (\<lambda>a. 0), edges = []\<rparr>)"
    by (simp_all add: s_idle_def E_quiet_def)
  have 2: "graph s_two = Some g_two" "getChunks E_quiet g_two (dfsOnFinish E_quiet g_two) = [0, 1]"
    "sortedDFSChunks s_two \<noteq> [0, 1]"
    by (simp_all add: s_idle_def E_quiet_def g_two_def s_two_def)
  have 3: "fst (updateChunks E_quiet s_two) = None"
    by (simp add: updateChunks_def setChunks_def ChunksMonitor_clear_def getFileLastModTime_eq
        emit_chunkStatusChanged_def UIGraph_onChunkStatusChanged_def dict_keys_def Let_def
        s_idle_def E_quiet_def g_two_def s_two_def)
  from updateChunks_idempotent [OF 1(1), of E_quiet] 1(2)
  have a: "updateChunks E_quiet s_idle = (None, s_idle)" by blast
  have d: "distinct (getChunks E_quiet g_two (dfsOnFinish E_quiet g_two))"
    and ne: "sortedDFSChunks s_two \<noteq> getChunks E_quiet g_two (dfsOnFinish E_quiet g_two)"
    using 2 by simp_all
  from updateChunks_idempotent [OF 2(1), of E_quiet] ne 3 d
  have "sortedDFSChunks (snd (updateChunks E_quiet s_two)) =
          getChunks E_quiet g_two (dfsOnFinish E_quiet g_two)"
    "dict_keys (lastModificationRecords (snd (updateChunks E_quiet s_two))) =
          getChunks E_quiet g_two (dfsOnFinish E_quiet g_two)"
    "updateChunks E_quiet (snd (updateChunks E_quiet s_two)) = (None, snd (updateChunks E_quiet s_two))"
    by blast+
  with 2(2) a show ?thesis by simp
qed

subsection \<open>C10: setGraph\<close>

lemma worker_step_fields [simp]:
  "undoStack (worker_step E s) = undoStack s"
  "sortedDFSChunks (worker_step E s) = sortedDFSChunks s"
  by (auto simp: worker_step_def Let_def split: Thread.splits position.splits)

lemma worker_steps_fields [simp]:
  "undoStack ((worker_step E ^^ k) s) = undoStack s"
  "sortedDFSChunks ((worker_step E ^^ k) s) = sortedDFSChunks s"
  "graph ((worker_step E ^^ k) s) = graph s"
  by (induction k) simp_all

lemma stopExecution_fields:
  assumes "graph s = Some g"
  shows "fst (stopExecution E s) = None"
    and "graph (snd (stopExecution E s)) = Some g"
    and "\<not> isComputingLocally (snd (stopExecution E s))"
proof -
  show "fst (stopExecution E s) = None" "graph (snd (stopExecution E s)) = Some g"
    using assms by (simp_all add: stopExecution_def Thread_join_def)
  show "\<not> isComputingLocally (snd (stopExecution E s))"
    using worker_run [where E=E and s="emit (GraphStopExecution g) s"] assms
    by (auto simp: stopExecution_def Thread_join_def isComputingLocally_def)
qed

lemma UIGraph_clear_fields:
  "undoStack (UIGraph_clear s) = \<lparr>undoList = [], redoList = [], openMacro = None\<rparr>"
  "sortedDFSChunks (UIGraph_clear s) = []"
  "graph (UIGraph_clear s) = None"
  "computeThread (UIGraph_clear s) = computeThread s"
  by (simp_all add: UIGraph_clear_def UndoStack_clear_def Let_def split: option.splits)

lemma updateChunks_fields:
  "undoStack (snd (updateChunks E s)) = undoStack s"
  "graph (snd (updateChunks E s)) = graph s"
  "computeThread (snd (updateChunks E s)) = computeThread s"
  "graph s = Some g \<Longrightarrow> sortedDFSChunks (snd (updateChunks E s)) = getChunks E g (dfsOnFinish E g)"
  by (auto simp: updateChunks_def Let_def setChunks_fields split: option.splits)

text \<open>
  Claim C10. For every current graph and every new graph, \<open>setGraph\<close> returns normally;
  before the new graph is installed, \<open>clear\<close> has emptied the undo history and the sorted
  chunk list and dropped the previous graph. After \<open>setGraph\<close> the undo history is empty,
  \<open>undo\<close> and \<open>redo\<close> change nothing, the new graph is installed, its chunks are the sorted
  list, and no compute thread is alive.
\<close>

theorem setGraph_clears_history:
  assumes "graph s = Some g"
  shows "fst (setGraph E g' s) = None \<and>
         undoStack (snd (setGraph E g' s)) = \<lparr>undoList = [], redoList = [], openMacro = None\<rparr> \<and>
         undo (snd (setGraph E g' s)) = snd (setGraph E g' s) \<and>
         redo (snd (setGraph E g' s)) = snd (setGraph E g' s) \<and>
         graph (snd (setGraph E g' s)) = Some g' \<and>
         sortedDFSChunks (snd (setGraph E g' s)) = getChunks E g' (dfsOnFinish E g') \<and>
         \<not> isComputingLocally (snd (setGraph E g' s)) \<and>
         setGraph E g' s =
           (None, emit GraphChanged (Graph_update E g' (emit (GraphConnectUpdated g')
              ((UIGraph_clear (snd (stopExecution E s)))\<lparr>graph := Some g'\<rparr>)))) \<and>
         undoStack (UIGraph_clear (snd (stopExecution E s))) =
           \<lparr>undoList = [], redoList = [], openMacro = None\<rparr> \<and>
         sortedDFSChunks (UIGraph_clear (snd (stopExecution E s))) = [] \<and>
         graph (UIGraph_clear (snd (stopExecution E s))) = None"
proof -
  note st = stopExecution_fields [OF assms, of E]
  define s1 where "s1 = UIGraph_clear (snd (stopExecution E s))"
  define s2 where "s2 = emit (GraphConnectUpdated g') (s1\<lparr>graph := Some g'\<rparr>)"
  define s3 where "s3 = Graph_update E g' s2"
  have eq: "setGraph E g' s = (None, emit GraphChanged s3)"
    using assms st(1)
    by (cases "stopExecution E s") (simp add: setGraph_def Let_def s1_def s2_def s3_def)
  have f1: "undoStack s1 = \<lparr>undoList = [], redoList = [], openMacro = None\<rparr>"
    "sortedDFSChunks s1 = []" "graph s1 = None" "\<not> isComputingLocally s1"
    using st(3) by (simp_all add: s1_def UIGraph_clear_fields isComputingLocally_def)
  have f3: "undoStack s3 = \<lparr>undoList = [], redoList = [], openMacro = None\<rparr>"
    "graph s3 = Some g'" "sortedDFSChunks s3 = getChunks E g' (dfsOnFinish E g')"
    "\<not> isComputingLocally s3"
    using f1 updateChunks_fields(4) [of "emit (GraphUpdate g') s2" g' E]
    by (simp_all add: s3_def s2_def Graph_update_def onGraphUpdated_def updateChunks_fields
        isComputingLocally_def)
  have u: "undo (emit GraphChanged s3) = emit GraphChanged s3"
    "redo (emit GraphChanged s3) = emit GraphChanged s3"
    using f3 by (simp_all add: undo_def redo_def Let_def)
  show ?thesis
    using eq f1 f3 u by (simp add: s1_def s2_def s3_def isComputingLocally_def)
qed

text \<open>
  The theorem at work: a state with one edit in its history gets the graph of the chunks
  0 and 1.
\<close>

theorem setGraph_clears_history_witness:
  "undoList (undoStack s_edited) \<noteq> [] \<and>
   fst (setGraph E_quiet g_two s_edited) = None \<and>
   undoStack (snd (setGraph E_quiet g_two s_edited)) =
     \<lparr>undoList = [], redoList = [], openMacro = None\<rparr> \<and>
   undo (snd (setGraph E_quiet g_two s_edited)) = snd (setGraph E_quiet g_two s_edited) \<and>
   graph (snd (setGraph E_quiet g_two s_edited)) = Some g_two \<and>
   sortedDFSChunks (snd (setGraph E_quiet g_two s_edited)) = [0, 1]"
proof -
  have g: "graph s_edited =
      Some \<lparr>name = [], listSize = (\<lambda>a. 0), edges = [(Attribute ''x'', Attribute ''y'')]\<rparr>"
    by (simp add: s_edited_def s_watching_def s_idle_def)
  have c: "getChunks E_quiet g_two (dfsOnFinish E_quiet g_two) = [0, 1]"
    by (simp add: E_quiet_def g_two_def)
  have n: "undoList (undoStack s_edited) \<noteq> []"
    by (simp add: s_edited_def s_watching_def s_idle_def)
  from setGraph_clears_history [OF g, of E_quiet g_two]
  have "fst (setGraph E_quiet g_two s_edited) = None"
    "undoStack (snd (setGraph E_quiet g_two s_edited)) =
       \<lparr>undoList = [], redoList = [], openMacro = None\<rparr>"
    "undo (snd (setGraph E_quiet g_two s_edited)) = snd (setGraph E_quiet g_two s_edited)"
    "graph (snd (setGraph E_quiet g_two s_edited)) = Some g_two"
    "sortedDFSChunks (snd (setGraph E_quiet g_two s_edited)) =
       getChunks E_quiet g_two (dfsOnFinish E_quiet g_two)"
    by blast+
  with c n show ?thesis by simp
qed


subsection \<open>C3: adding an edge into a list attribute\<close>

text \<open>
  Claim C3, as amended. For every call \<open>addEdge(src, dst)\<close> where \<open>dst\<close> is a list
  attribute and \<open>src\<close> is not, made on an installed graph with no macro open and
  with both commands accepted by the graph: one element is appended to \<open>dst\<close>, the edge is
  connected from \<open>src\<close> to that new last element, and the two commands are recorded as one
  macro, one entry of the undo history. One \<open>undo\<close> removes the edge and the element
  together and gives back the graph as it was; one \<open>redo\<close> after it gives back the graph
  and the history as \<open>addEdge\<close> left them.
\<close>

theorem addEdge_into_list:
  assumes "graph s = Some g" and "openMacro (undoStack s) = None"
    and "isListAttribute dst" and "\<not> isListAttribute src"
    and "accepts E g (ListAttributeAppendCommand dst PyNone)"
    and "accepts E (redoImpl (ListAttributeAppendCommand dst PyNone) g)
           (AddEdgeCommand src (ListElement dst (listSize g dst)))"
    and "(src, ListElement dst (listSize g dst)) \<notin> set (edges g)"
  shows "fst (addEdge E src dst s) = None \<and>
         graph (snd (addEdge E src dst s)) =
           Some (g\<lparr>listSize := (listSize g)(dst := Suc (listSize g dst)),
                   edges := edges g @ [(src, ListElement dst (listSize g dst))]\<rparr>) \<and>
         undoList (undoStack (snd (addEdge E src dst s))) =
           undoList (undoStack s) @
           [Macro (''Insert and Add Edge on '' @ fullName E dst)
              [ListAttributeAppendCommand dst PyNone,
               AddEdgeCommand src (ListElement dst (listSize g dst))]] \<and>
         openMacro (undoStack (snd (addEdge E src dst s))) = None \<and>
         at_last (g\<lparr>listSize := (listSize g)(dst := Suc (listSize g dst)),
                    edges := edges g @ [(src, ListElement dst (listSize g dst))]\<rparr>) dst =
           Inr (ListElement dst (listSize g dst)) \<and>
         graph (undo (snd (addEdge E src dst s))) = Some g \<and>
         undoList (undoStack (undo (snd (addEdge E src dst s)))) = undoList (undoStack s) \<and>
         redo (undo (snd (addEdge E src dst s))) = snd (addEdge E src dst s)"
proof -
  let ?a = "ListAttributeAppendCommand dst PyNone"
  let ?elt = "ListElement dst (listSize g dst)"
  let ?e = "AddEdgeCommand src ?elt"
  let ?title = "''Insert and Add Edge on '' @ fullName E dst"
  let ?g' = "g\<lparr>listSize := (listSize g)(dst := Suc (listSize g dst)),
                   edges := edges g @ [(src, ?elt)]\<rparr>"
  define u where "u = undoStack s"
  have res: "addEdge E src dst s =
      (None, s\<lparr>graph := Some ?g',
               undoStack := u\<lparr>redoList := [], undoList := undoList u @ [Macro ?title [?a, ?e]],
                              openMacro := None\<rparr>\<rparr>)"
    using assms
    by (simp add: addEdge_def appendAttribute_def push_def beginMacro_def endMacro_def
        record_command_def at_last_def Let_def u_def)
  have bwd: "fold undoImpl (rev [?a, ?e]) ?g' = g"
    using assms(7) by (simp add: remove1_append)
  have fwd: "fold redoImpl [?a, ?e] g = ?g'" by simp
  show ?thesis
    unfolding res using bwd fwd by (simp add: undo_def redo_def Let_def u_def at_last_def)
qed


text \<open>
  The theorem at work: a plain attribute is connected into an empty list attribute of the
  idle state's graph.
\<close>

theorem addEdge_into_list_witness:
  "fst (addEdge E_quiet (Attribute ''in'') (ListAttribute ''out'') s_idle) = None \<and>
   undoList (undoStack (snd (addEdge E_quiet (Attribute ''in'') (ListAttribute ''out'') s_idle))) =
     [Macro ''Insert and Add Edge on out''
        [ListAttributeAppendCommand (ListAttribute ''out'') PyNone,
         AddEdgeCommand (Attribute ''in'') (ListElement (ListAttribute ''out'') 0)]] \<and>
   graph (undo (snd (addEdge E_quiet (Attribute ''in'') (ListAttribute ''out'') s_idle))) =
     graph s_idle \<and>
   redo (undo (snd (addEdge E_quiet (Attribute ''in'') (ListAttribute ''out'') s_idle))) =
     snd (addEdge E_quiet (Attribute ''in'') (ListAttribute ''out'') s_idle)"
proof -
  let ?g = "\<lparr>name = [], listSize = (\<lambda>a. 0), edges = []\<rparr>"
  have h: "graph s_idle = Some ?g" "openMacro (undoStack s_idle) = None"
    "isListAttribute (ListAttribute ''out'')" "\<not> isListAttribute (Attribute ''in'')"
    "accepts E_quiet ?g (ListAttributeAppendCommand (ListAttribute ''out'') PyNone)"
    "accepts E_quiet (redoImpl (ListAttributeAppendCommand (ListAttribute ''out'') PyNone) ?g)
       (AddEdgeCommand (Attribute ''in'') (ListElement (ListAttribute ''out'') (listSize ?g (ListAttribute ''out''))))"
    "(Attribute ''in'', ListElement (ListAttribute ''out'') (listSize ?g (ListAttribute ''out'')))
       \<notin> set (edges ?g)"
    "fullName E_quiet (ListAttribute ''out'') = ''out''"
    by (simp_all add: s_idle_def E_quiet_def isListAttribute_def)
  from addEdge_into_list [OF h(1-7)]
  have "fst (addEdge E_quiet (Attribute ''in'') (ListAttribute ''out'') s_idle) = None"
    "undoList (undoStack (snd (addEdge E_quiet (Attribute ''in'') (ListAttribute ''out'') s_idle))) =
       undoList (undoStack s_idle) @
       [Macro (''Insert and Add Edge on '' @ fullName E_quiet (ListAttribute ''out''))
          [ListAttributeAppendCommand (ListAttribute ''out'') PyNone,
           AddEdgeCommand (Attribute ''in'')
             (ListElement (ListAttribute ''out'') (listSize ?g (ListAttribute ''out'')))]]"
    "graph (undo (snd (addEdge E_quiet (Attribute ''in'') (ListAttribute ''out'') s_idle))) = Some ?g"
    "redo (undo (snd (addEdge E_quiet (Attribute ''in'') (ListAttribute ''out'') s_idle))) =
       snd (addEdge E_quiet (Attribute ''in'') (ListAttribute ''out'') s_idle)"
    by blast+
  with h(1,8) show ?thesis by (simp add: s_idle_def)
qed

text \<open>
  The claim as stated fails. When the source is a list attribute too, the guard of
  \<open>addEdge\<close> takes the other branch: the destination is list-typed, and yet no element is
  appended, no macro is opened, and the edge is connected to the list attribute itself by a
  single command.
\<close>

theorem addEdge_list_to_list:
  "isListAttribute (ListAttribute ''out'') \<and>
   fst (addEdge E_quiet (ListAttribute ''in'') (ListAttribute ''out'') s_idle) = None \<and>
   undoList (undoStack (snd (addEdge E_quiet (ListAttribute ''in'') (ListAttribute ''out'') s_idle))) =
     [Single (AddEdgeCommand (ListAttribute ''in'') (ListAttribute ''out''))] \<and>
   map_option (\<lambda>g. (listSize g (ListAttribute ''out''), edges g))
     (graph (snd (addEdge E_quiet (ListAttribute ''in'') (ListAttribute ''out'') s_idle))) =
     Some (0, [(ListAttribute ''in'', ListAttribute ''out'')])"
  by (simp add: addEdge_def push_def record_command_def isListAttribute_def s_idle_def E_quiet_def)


end
